theory Spec2Isabelle
  imports
    Main
    "HOL-Library.Char_ord"
    "HOL-Library.List_Lexorder"
    "HOL-Library.Product_Lexorder"
begin

section \<open>Strings, bytes and Python values\<close>

text \<open>
  A Python \<open>str\<close> is modelled as a \<open>string\<close> whose characters are code points below 256
  (the Latin-1 range); \<open>length\<close> counts code points as Python's \<open>len\<close> does. A
  \<open>bytes\<close> object is a \<open>string\<close> whose characters are bytes. The order on strings is
  the lexicographic order on code points, which is the order of SQLite's BINARY
  collation on the UTF-8 encodings.
\<close>

datatype py_error = TypeError | AttributeError | OverflowError | DataError | OperationalError

text \<open>\<open>str.encode()\<close>: the UTF-8 encoding of a string of code points below 256.\<close>

definition encode_char :: "char \<Rightarrow> string" where
  "encode_char c =
     (let n = of_char c :: nat
      in if n < 128 then [c] else [char_of (192 + n div 64), char_of (128 + n mod 64)])"

definition encode :: "string \<Rightarrow> string" where
  "encode s = concat (map encode_char s)"

text \<open>The number of bytes a string takes when it is bound as an SQL parameter.\<close>

definition utf8_length :: "string \<Rightarrow> int" where
  "utf8_length s = int (length (encode s))"

section \<open>The messages table (models.py)\<close>

text \<open>
  One row of the table \<open>messages\<close> created by \<open>init_db\<close>: \<open>message_id\<close> is the
  primary key, \<open>text\<close> is the only nullable column. The table is the list of its rows in
  insertion order.
\<close>

record row =
  message_id :: string
  from_msisdn :: string
  to_msisdn :: string
  ts :: string
  "text" :: "string option"
  created_at :: string

type_synonym table = "row list"

text \<open>The primary-key constraint: no two rows share a \<open>message_id\<close>.\<close>

definition primary_key :: "table \<Rightarrow> bool" where
  "primary_key db = distinct (map message_id db)"

section \<open>Storage.insert_message (storage.py)\<close>

text \<open>
  \<open>now\<close> is the value of \<open>datetime.utcnow().isoformat()\<close> at the call. The INSERT raises
  \<open>sqlite3.IntegrityError\<close> when the primary key is already present; the source catches
  it, rolls back and returns \<open>False\<close>. The model covers rows within SQLite's length limit
  of 1000000000 bytes; for a longer row the INSERT raises \<open>sqlite3.DataError\<close> instead.
\<close>

definition insert_message ::
  "table \<Rightarrow> string \<Rightarrow> string \<Rightarrow> string \<Rightarrow> string \<Rightarrow> string \<Rightarrow> string option
     \<Rightarrow> table \<times> bool" where
  "insert_message db now mid frm to tsv txt =
     (if mid \<in> set (map message_id db) then (db, False)
      else (db @ [\<lparr>message_id = mid, from_msisdn = frm, to_msisdn = to, ts = tsv,
                    text = txt, created_at = now @ ''Z''\<rparr>], True))"

section \<open>Storage.get_messages (storage.py)\<close>

subsection \<open>The SQL functions LOWER and LIKE\<close>

text \<open>
  SQLite's built-in \<open>LOWER\<close> folds the ASCII letters only. \<open>LIKE\<close> reads \<open>%\<close> in the
  pattern as any sequence of characters and \<open>_\<close> as any single character; every other
  pattern character matches itself up to ASCII case. No ESCAPE clause is given in the
  source, so no pattern character can be quoted. The function reads pattern and text as
  C strings, that is up to the first NUL character, and fails with \<open>LIKE or GLOB pattern
  too complex\<close> (\<open>sqlite3.OperationalError\<close>) when the pattern is longer than 50000 bytes,
  whatever the text, NULL included. On a NULL text the result is NULL, which selects no
  row.
\<close>

definition sql_lower_char :: "char \<Rightarrow> char" where
  "sql_lower_char c =
     (if CHR ''A'' \<le> c \<and> c \<le> CHR ''Z'' then char_of (of_char c + (32::nat)) else c)"

definition sql_lower :: "string \<Rightarrow> string" where
  "sql_lower s = map sql_lower_char s"

fun sql_like :: "string \<Rightarrow> string \<Rightarrow> bool" where
  "sql_like [] s = (s = [])"
| "sql_like (c # p) [] = (c = CHR ''%'' \<and> sql_like p [])"
| "sql_like (c # p) (x # s) =
     (if c = CHR ''%'' then sql_like p (x # s) \<or> sql_like (c # p) s
      else if c = CHR ''_'' then sql_like p s
      else sql_lower_char c = sql_lower_char x \<and> sql_like p s)"

definition c_string :: "string \<Rightarrow> string" where
  "c_string s = takeWhile (\<lambda>c. c \<noteq> CHR 0x00) s"

definition like_function :: "string \<Rightarrow> string option \<Rightarrow> py_error + bool" where
  "like_function pattern txt =
     (if 50000 < utf8_length pattern then Inl OperationalError
      else Inr (case txt of None \<Rightarrow> False | Some t \<Rightarrow> sql_like (c_string pattern) (c_string t)))"

subsection \<open>The WHERE clause\<close>

text \<open>
  The source builds a list of conditions with bound parameters and joins them with
  \<open>AND\<close>; an empty list becomes \<open>1=1\<close>. The terms are tested in the order written and
  a row that fails a term is dropped without testing the later ones, so the \<open>LIKE\<close>
  term, which comes last, is reached only by the rows that pass the terms before it.
\<close>

datatype condition =
    From_eq string
  | Ts_ge string
  | Lower_text_like string

fun parameter :: "condition \<Rightarrow> string" where
  "parameter (From_eq x) = x"
| "parameter (Ts_ge x) = x"
| "parameter (Lower_text_like x) = x"

fun holds :: "condition \<Rightarrow> row \<Rightarrow> py_error + bool" where
  "holds (From_eq x) r = Inr (from_msisdn r = x)"
| "holds (Ts_ge x) r = Inr (x \<le> ts r)"
| "holds (Lower_text_like x) r = like_function (sql_lower x) (map_option sql_lower (text r))"

fun from_condition :: "string option \<Rightarrow> condition list" where
  "from_condition None = []"
| "from_condition (Some x) = (if x \<noteq> [] then [From_eq x] else [])"

fun since_condition :: "string option \<Rightarrow> condition list" where
  "since_condition None = []"
| "since_condition (Some x) = (if x \<noteq> [] then [Ts_ge x] else [])"

fun q_condition :: "string option \<Rightarrow> condition list" where
  "q_condition None = []"
| "q_condition (Some x) = (if x \<noteq> [] then [Lower_text_like (''%'' @ x @ ''%'')] else [])"

definition conditions :: "string option \<Rightarrow> string option \<Rightarrow> string option \<Rightarrow> condition list" where
  "conditions frm since q = from_condition frm @ since_condition since @ q_condition q"

fun where_clause :: "condition list \<Rightarrow> row \<Rightarrow> py_error + bool" where
  "where_clause [] r = Inr True"
| "where_clause (c # cs) r =
     (case holds c r of
        Inl e \<Rightarrow> Inl e
      | Inr b \<Rightarrow> if b then where_clause cs r else Inr False)"

text \<open>
  Running a SELECT over the table: the rows on which the WHERE clause is true, or the
  error raised while testing a row.
\<close>

fun select_where :: "condition list \<Rightarrow> table \<Rightarrow> py_error + row list" where
  "select_where conds [] = Inr []"
| "select_where conds (r # rs) =
     (case where_clause conds r of
        Inl e \<Rightarrow> Inl e
      | Inr b \<Rightarrow>
          (case select_where conds rs of
             Inl e \<Rightarrow> Inl e
           | Inr ys \<Rightarrow> Inr (if b then r # ys else ys)))"

text \<open>
  Binding a string of more than 1000000000 bytes fails with \<open>string or blob too big\<close>
  (\<open>sqlite3.DataError\<close>), before the statement runs.
\<close>

definition too_big :: "string \<Rightarrow> bool" where
  "too_big s = (1000000000 < utf8_length s)"

subsection \<open>ORDER BY, LIMIT and OFFSET\<close>

definition order_by_ts_message_id :: "row list \<Rightarrow> row list" where
  "order_by_ts_message_id rs = sort_key (\<lambda>r. (ts r, message_id r)) rs"

text \<open>
  SQLite reads a negative LIMIT as no limit and a negative OFFSET as zero. The
  \<open>sqlite3\<close> module binds a Python \<open>int\<close> as a 64-bit integer and raises
  \<open>OverflowError\<close> for a value outside that range.
\<close>

definition limit_offset :: "int \<Rightarrow> int \<Rightarrow> 'a list \<Rightarrow> 'a list" where
  "limit_offset lim off xs =
     (if lim < 0 then drop (nat off) xs else take (nat lim) (drop (nat off) xs))"

definition sqlite_int :: "int \<Rightarrow> bool" where
  "sqlite_int n = (- (2 ^ 63) \<le> n \<and> n < 2 ^ 63)"

subsection \<open>The operation\<close>

text \<open>The dictionary built for each returned row, with its five keys.\<close>

record message =
  msg_message_id :: string
  msg_from :: string
  msg_to :: string
  msg_ts :: string
  msg_text :: "string option"

definition message_of_row :: "row \<Rightarrow> message" where
  "message_of_row r =
     \<lparr>msg_message_id = message_id r, msg_from = from_msisdn r, msg_to = to_msisdn r,
      msg_ts = ts r, msg_text = text r\<rparr>"

text \<open>
  The count query runs first, with the filter parameters only; the page query then binds
  limit and offset as well and runs the same WHERE clause.
\<close>

definition get_messages ::
  "table \<Rightarrow> int \<Rightarrow> int \<Rightarrow> string option \<Rightarrow> string option \<Rightarrow> string option
     \<Rightarrow> py_error + (message list \<times> nat)" where
  "get_messages db lim off frm since q =
     (let conds = conditions frm since q
      in if list_ex (\<lambda>c. too_big (parameter c)) conds then Inl DataError
         else
           (case select_where conds db of
              Inl e \<Rightarrow> Inl e
            | Inr counted \<Rightarrow>
                if sqlite_int lim \<and> sqlite_int off
                then
                  (case select_where conds db of
                     Inl e \<Rightarrow> Inl e
                   | Inr rows \<Rightarrow>
                       Inr (map message_of_row
                              (limit_offset lim off (order_by_ts_message_id rows)),
                            length counted))
                else Inl OverflowError))"

section \<open>Storage.get_stats (storage.py)\<close>

record stats =
  total_messages :: nat
  senders_count :: nat
  messages_per_sender :: "(string \<times> nat) list"
  first_message_ts :: "string option"
  last_message_ts :: "string option"

text \<open>
  \<open>GROUP BY from_msisdn\<close> yields one group per distinct sender with its row count.
  SQL leaves the order among equal counts open; the model lists the groups by ascending
  sender and sorts them stably by descending count.
\<close>

definition count_from :: "table \<Rightarrow> string \<Rightarrow> nat" where
  "count_from db s = length (filter (\<lambda>r. from_msisdn r = s) db)"

definition group_by_from :: "table \<Rightarrow> (string \<times> nat) list" where
  "group_by_from db = map (\<lambda>s. (s, count_from db s)) (sort (remdups (map from_msisdn db)))"

definition order_by_count_desc :: "(string \<times> nat) list \<Rightarrow> (string \<times> nat) list" where
  "order_by_count_desc gs = sort_key (\<lambda>g. - int (snd g)) gs"

fun min_ts :: "table \<Rightarrow> string option" where
  "min_ts [] = None"
| "min_ts (r # rs) = Some (fold min (map ts rs) (ts r))"

fun max_ts :: "table \<Rightarrow> string option" where
  "max_ts [] = None"
| "max_ts (r # rs) = Some (fold max (map ts rs) (ts r))"

definition get_stats :: "table \<Rightarrow> stats" where
  "get_stats db =
     (let total = length db
      in if total = 0
         then \<lparr>total_messages = 0, senders_count = 0, messages_per_sender = [],
               first_message_ts = None, last_message_ts = None\<rparr>
         else \<lparr>total_messages = total,
               senders_count = length (remdups (map from_msisdn db)),
               messages_per_sender = take 10 (order_by_count_desc (group_by_from db)),
               first_message_ts = min_ts db,
               last_message_ts = max_ts db\<rparr>)"

section \<open>Signature verification (main.py)\<close>

text \<open>\<open>hexdigest()\<close>: two lowercase hexadecimal digits for each byte of the digest.\<close>

definition hex_digit :: "nat \<Rightarrow> char" where
  "hex_digit n = (if n < 10 then char_of (48 + n) else char_of (87 + n))"

definition hex_byte :: "char \<Rightarrow> string" where
  "hex_byte b = [hex_digit (of_char b div 16), hex_digit (of_char b mod 16)]"

definition hexdigest :: "string \<Rightarrow> string" where
  "hexdigest d = concat (map hex_byte d)"

text \<open>
  \<open>hmac.compare_digest\<close> on two \<open>str\<close> arguments raises \<open>TypeError\<close> unless both are
  ASCII; otherwise it is equality.
\<close>

definition is_ascii :: "string \<Rightarrow> bool" where
  "is_ascii s = list_all (\<lambda>c. (of_char c :: nat) < 128) s"

definition compare_digest :: "string \<Rightarrow> string \<Rightarrow> py_error + bool" where
  "compare_digest a b = (if is_ascii a \<and> is_ascii b then Inr (a = b) else Inl TypeError)"

text \<open>
  The hash itself belongs to \<open>hashlib\<close>: \<open>hmac_sha256 key msg\<close> stands for the digest
  bytes of \<open>hmac.new(key, msg, hashlib.sha256)\<close> and is a parameter of the model.
\<close>

definition verify_signature ::
  "(string \<Rightarrow> string \<Rightarrow> string) \<Rightarrow> string \<Rightarrow> string \<Rightarrow> string \<Rightarrow> py_error + bool" where
  "verify_signature hmac_sha256 secret body_bytes signature =
     (let expected = hexdigest (hmac_sha256 (encode secret) body_bytes)
      in compare_digest expected signature)"

section \<open>WebhookMessage (main.py)\<close>

text \<open>
  The values \<open>json.loads\<close> can return. A dictionary is an association list read with
  \<open>map_of\<close>; a float is kept as mantissa and exponent and never inspected.
\<close>

datatype pyval =
    PNone
  | PBool bool
  | PInt int
  | PFloat int int
  | PStr string
  | PList "pyval list"
  | PDict "(string \<times> pyval) list"

record WebhookMessage =
  wm_message_id :: string
  wm_from_msisdn :: string
  wm_to_msisdn :: string
  wm_ts :: string
  wm_text :: "string option"

text \<open>One entry of a pydantic \<open>ValidationError\<close>: the field and what is wrong with it.\<close>

datatype field_error =
    Missing string
  | String_type string
  | String_too_short string
  | String_too_long string
  | Value_error string string

subsection \<open>String predicates of Python\<close>

definition startswith :: "string \<Rightarrow> string \<Rightarrow> bool" where
  "startswith v p = (take (length p) v = p)"

definition endswith :: "string \<Rightarrow> string \<Rightarrow> bool" where
  "endswith v p = (length p \<le> length v \<and> drop (length v - length p) v = p)"

text \<open>
  \<open>str.isdigit\<close> holds of a non-empty string whose characters all have the Unicode
  property Numeric_Type=Digit or Numeric_Type=Decimal. Below code point 256 these are the
  ten ASCII digits and the superscripts two, three and one (U+00B2, U+00B3, U+00B9).
\<close>

definition isdigit_char :: "char \<Rightarrow> bool" where
  "isdigit_char c =
     ((CHR ''0'' \<le> c \<and> c \<le> CHR ''9'') \<or> c = CHR 0xB2 \<or> c = CHR 0xB3 \<or> c = CHR 0xB9)"

definition isdigit :: "string \<Rightarrow> bool" where
  "isdigit s = (s \<noteq> [] \<and> list_all isdigit_char s)"

definition replace_Z :: "string \<Rightarrow> string" where
  "replace_Z v = concat (map (\<lambda>c. if c = CHR ''Z'' then ''+00:00'' else [c]) v)"

subsection \<open>The field validators\<close>

definition validate_msisdn :: "string \<Rightarrow> string + string" where
  "validate_msisdn v =
     (if \<not> startswith v ''+'' then Inl ''must start with +''
      else if \<not> isdigit (drop 1 v) then Inl ''must contain only digits after +''
      else Inr v)"

text \<open>
  \<open>fromisoformat s\<close> says whether \<open>datetime.fromisoformat(s)\<close> returns rather than
  raising \<open>ValueError\<close>; the parser belongs to the standard library and is a parameter.
\<close>

definition validate_timestamp :: "(string \<Rightarrow> bool) \<Rightarrow> string \<Rightarrow> string + string" where
  "validate_timestamp fromisoformat v =
     (if \<not> endswith v ''Z'' then Inl ''must end with Z''
      else if fromisoformat (replace_Z v) then Inr v
      else Inl ''must be valid ISO-8601 UTC timestamp'')"

subsection \<open>Construction of the model from keyword arguments\<close>

text \<open>
  A \<open>str\<close> field takes a string only (numbers are not coerced), a required field must be
  present, \<open>text\<close> defaults to \<open>None\<close>, unknown keys are ignored, and the errors of all
  fields are collected.
\<close>

definition message_id_field :: "pyval option \<Rightarrow> field_error list + string" where
  "message_id_field v =
     (case v of
        None \<Rightarrow> Inl [Missing ''message_id'']
      | Some (PStr s) \<Rightarrow>
          if length s < 1 then Inl [String_too_short ''message_id''] else Inr s
      | Some _ \<Rightarrow> Inl [String_type ''message_id''])"

definition msisdn_field :: "string \<Rightarrow> pyval option \<Rightarrow> field_error list + string" where
  "msisdn_field name v =
     (case v of
        None \<Rightarrow> Inl [Missing name]
      | Some (PStr s) \<Rightarrow>
          (case validate_msisdn s of
             Inl msg \<Rightarrow> Inl [Value_error name msg]
           | Inr s' \<Rightarrow> Inr s')
      | Some _ \<Rightarrow> Inl [String_type name])"

definition ts_field :: "(string \<Rightarrow> bool) \<Rightarrow> pyval option \<Rightarrow> field_error list + string" where
  "ts_field fromisoformat v =
     (case v of
        None \<Rightarrow> Inl [Missing ''ts'']
      | Some (PStr s) \<Rightarrow>
          (case validate_timestamp fromisoformat s of
             Inl msg \<Rightarrow> Inl [Value_error ''ts'' msg]
           | Inr s' \<Rightarrow> Inr s')
      | Some _ \<Rightarrow> Inl [String_type ''ts''])"

definition text_field :: "pyval option \<Rightarrow> field_error list + string option" where
  "text_field v =
     (case v of
        None \<Rightarrow> Inr None
      | Some PNone \<Rightarrow> Inr None
      | Some (PStr s) \<Rightarrow>
          if 4096 < length s then Inl [String_too_long ''text''] else Inr (Some s)
      | Some _ \<Rightarrow> Inl [String_type ''text''])"

fun errors_of :: "field_error list + 'a \<Rightarrow> field_error list" where
  "errors_of (Inl es) = es"
| "errors_of (Inr _) = []"

definition WebhookMessage_init ::
  "(string \<Rightarrow> bool) \<Rightarrow> (string \<times> pyval) list \<Rightarrow> field_error list + WebhookMessage" where
  "WebhookMessage_init fromisoformat kwargs =
     (let a = message_id_field (map_of kwargs ''message_id'');
          b = msisdn_field ''from_msisdn'' (map_of kwargs ''from_msisdn'');
          c = msisdn_field ''to_msisdn'' (map_of kwargs ''to_msisdn'');
          d = ts_field fromisoformat (map_of kwargs ''ts'');
          e = text_field (map_of kwargs ''text'')
      in case (a, b, c, d, e) of
           (Inr mid, Inr frm, Inr to, Inr tsv, Inr txt) \<Rightarrow>
             Inr \<lparr>wm_message_id = mid, wm_from_msisdn = frm, wm_to_msisdn = to,
                  wm_ts = tsv, wm_text = txt\<rparr>
         | _ \<Rightarrow> Inl (errors_of a @ errors_of b @ errors_of c @ errors_of d @ errors_of e))"

section \<open>The webhook route (main.py)\<close>

text \<open>
  What the route needs from outside: the configured secret, the hash, the JSON parser
  (\<open>None\<close> when decoding or parsing raises, both subclasses of \<open>ValueError\<close>) and the
  timestamp parser.
\<close>

record collaborators =
  webhook_secret :: "string option"
  hmac_sha256 :: "string \<Rightarrow> string \<Rightarrow> string"
  json_loads :: "string \<Rightarrow> pyval option"
  fromisoformat :: "string \<Rightarrow> bool"

text \<open>
  The answer of the route: an \<open>HTTPException\<close> with its status code, the acknowledgment,
  or an exception that no handler catches (status 500).
\<close>

datatype webhook_answer =
    HTTPException nat
  | WebhookResponse string
  | Uncaught py_error

text \<open>
  The route returns its answer, the labels passed to \<open>record_webhook_request\<close> during the
  request, and the table afterwards.
\<close>

definition ingest :: "table \<Rightarrow> string \<Rightarrow> WebhookMessage \<Rightarrow> webhook_answer \<times> string list \<times> table" where
  "ingest db now m =
     (let (db', inserted) =
            insert_message db now (wm_message_id m) (wm_from_msisdn m) (wm_to_msisdn m)
              (wm_ts m) (wm_text m);
          result = (if inserted then ''created'' else ''duplicate'')
      in (WebhookResponse ''ok'', [result], db'))"

definition parse_and_ingest ::
  "collaborators \<Rightarrow> table \<Rightarrow> string \<Rightarrow> string \<Rightarrow> webhook_answer \<times> string list \<times> table" where
  "parse_and_ingest env db now body_bytes =
     (case json_loads env body_bytes of
        None \<Rightarrow> (HTTPException 422, [''validation_error''], db)
      | Some (PDict body_dict) \<Rightarrow>
          (case WebhookMessage_init (fromisoformat env) body_dict of
             Inl es \<Rightarrow> (HTTPException 422, [''validation_error''], db)
           | Inr m \<Rightarrow> ingest db now m)
      | Some _ \<Rightarrow> (Uncaught TypeError, [], db))"

definition webhook ::
  "collaborators \<Rightarrow> table \<Rightarrow> string \<Rightarrow> string option \<Rightarrow> string
     \<Rightarrow> webhook_answer \<times> string list \<times> table" where
  "webhook env db now x_signature body_bytes =
     (case x_signature of
        None \<Rightarrow> (HTTPException 401, [''invalid_signature''], db)
      | Some signature \<Rightarrow>
          if signature = [] then (HTTPException 401, [''invalid_signature''], db)
          else
            (case webhook_secret env of
               None \<Rightarrow> (Uncaught AttributeError, [], db)
             | Some secret \<Rightarrow>
                 (case verify_signature (hmac_sha256 env) secret body_bytes signature of
                    Inl e \<Rightarrow> (Uncaught e, [], db)
                  | Inr False \<Rightarrow> (HTTPException 401, [''invalid_signature''], db)
                  | Inr True \<Rightarrow> parse_and_ingest env db now body_bytes)))"

section \<open>The listing route (main.py)\<close>





section \<open>Reference predicates and test data\<close>

text \<open>
  The specification's reading of the search term: \<open>q\<close> occurs in the text as a literal
  substring, both taken in lower case; a NULL text never matches.
\<close>

fun is_substring :: "string \<Rightarrow> string \<Rightarrow> bool" where
  "is_substring p [] = (p = [])"
| "is_substring p (x # s) = (startswith (x # s) p \<or> is_substring p s)"

definition literal_substring_match :: "string \<Rightarrow> string option \<Rightarrow> bool" where
  "literal_substring_match q txt =
     (case txt of None \<Rightarrow> False | Some t \<Rightarrow> is_substring (sql_lower q) (sql_lower t))"

text \<open>
  The filters as the specification words them: every supplied filter must hold of the
  row, the sender by equality, \<open>since\<close> as an inclusive lower bound on \<open>ts\<close> in the
  order on strings, and \<open>q\<close> as a case-insensitive literal substring of the text. A
  filter that is \<open>None\<close> or empty counts as not supplied.
\<close>

definition filters_hold :: "string option \<Rightarrow> string option \<Rightarrow> string option \<Rightarrow> row \<Rightarrow> bool" where
  "filters_hold frm since q r =
     ((case frm of None \<Rightarrow> True | Some x \<Rightarrow> x = [] \<or> from_msisdn r = x) \<and>
      (case since of None \<Rightarrow> True | Some t \<Rightarrow> t = [] \<or> t \<le> ts r) \<and>
      (case q of None \<Rightarrow> True | Some s \<Rightarrow> s = [] \<or> literal_substring_match s (text r)))"

text \<open>
  The three messages that the tests seed (test_messages.py, test_stats.py), as rows.
\<close>

definition seed_messages :: table where
  "seed_messages =
     [\<lparr>message_id = ''msg_1'', from_msisdn = ''+919876543210'', to_msisdn = ''+919876543211'',
       ts = ''2025-01-15T10:00:00Z'', text = Some ''Hello'', created_at = ''2025-01-15T10:05:00Z''\<rparr>,
      \<lparr>message_id = ''msg_2'', from_msisdn = ''+919876543210'', to_msisdn = ''+919876543212'',
       ts = ''2025-01-15T10:01:00Z'', text = Some ''World'', created_at = ''2025-01-15T10:05:01Z''\<rparr>,
      \<lparr>message_id = ''msg_3'', from_msisdn = ''+919876543211'', to_msisdn = ''+919876543210'',
       ts = ''2025-01-15T10:02:00Z'', text = Some ''Hello there'', created_at = ''2025-01-15T10:05:02Z''\<rparr>]"

text \<open>
  The specification's pattern for a phone number: a plus sign followed by one or more
  of the digits 0 to 9 and nothing else.
\<close>

definition plus_digits :: "string \<Rightarrow> bool" where
  "plus_digits v =
     (case v of
        [] \<Rightarrow> False
      | c # ds \<Rightarrow> c = CHR ''+'' \<and> ds \<noteq> [] \<and> list_all (\<lambda>d. CHR ''0'' \<le> d \<and> d \<le> CHR ''9'') ds)"

text \<open>
  The \<open>valid_message\<close> of test_webhook.py as \<open>json.loads\<close> returns it, with the keys
  \<open>from\<close> and \<open>to\<close> that the tests and the specification's scenario use.
\<close>

definition valid_message :: "(string \<times> pyval) list" where
  "valid_message =
     [(''message_id'', PStr ''msg_123''), (''from'', PStr ''+919876543210''),
      (''to'', PStr ''+919876543211''), (''ts'', PStr ''2025-01-15T10:00:00Z''),
      (''text'', PStr ''Hello, world!'')]"

text \<open>
  Stand-ins for the library functions, used only to run the route on that message: a
  constant 32-byte digest, a parser that knows the one body, and a timestamp parser that
  accepts that body's timestamp.
\<close>

definition test_collaborators :: collaborators where
  "test_collaborators =
     \<lparr>webhook_secret = Some ''test-secret-key'',
      hmac_sha256 = (\<lambda>key msg. replicate 32 (CHR 0x00)),
      json_loads = (\<lambda>body. if body = ''valid_message'' then Some (PDict valid_message) else None),
      fromisoformat = (\<lambda>s. s = ''2025-01-15T10:00:00+00:00'')\<rparr>"

section \<open>Properties\<close>

subsection \<open>The SQL search\<close>

lemma of_char_sql_lower_char:
  "(of_char (sql_lower_char c) :: nat) =
     (if 65 \<le> (of_char c :: nat) \<and> (of_char c :: nat) \<le> 90 then of_char c + 32 else of_char c)"
proof (cases "65 \<le> (of_char c :: nat) \<and> (of_char c :: nat) \<le> 90")
  case True
  then have "(of_char c + 32 :: nat) mod 256 = of_char c + 32" by simp
  then show ?thesis using True by (simp add: sql_lower_char_def less_eq_char_def)
next
  case False
  then show ?thesis by (auto simp: sql_lower_char_def less_eq_char_def)
qed

lemma sql_lower_char_idem [simp]: "sql_lower_char (sql_lower_char c) = sql_lower_char c"
proof -
  have "(of_char (sql_lower_char (sql_lower_char c)) :: nat) = of_char (sql_lower_char c)"
    by (simp add: of_char_sql_lower_char)
  then show ?thesis by simp
qed

lemma sql_lower_char_wildcard:
  "sql_lower_char c = CHR ''%'' \<longleftrightarrow> c = CHR ''%''"
  "sql_lower_char c = CHR ''_'' \<longleftrightarrow> c = CHR ''_''"
proof -
  have "(of_char (sql_lower_char c) :: nat) = 37 \<longleftrightarrow> (of_char c :: nat) = 37"
    by (simp add: of_char_sql_lower_char)
  moreover have "(of_char (sql_lower_char c) :: nat) = of_char CHR ''%'' \<longleftrightarrow> sql_lower_char c = CHR ''%''"
    by (rule of_char_eq_iff)
  moreover have "(of_char c :: nat) = of_char CHR ''%'' \<longleftrightarrow> c = CHR ''%''"
    by (rule of_char_eq_iff)
  ultimately show "sql_lower_char c = CHR ''%'' \<longleftrightarrow> c = CHR ''%''" by simp
  have "(of_char (sql_lower_char c) :: nat) = 95 \<longleftrightarrow> (of_char c :: nat) = 95"
    by (simp add: of_char_sql_lower_char)
  moreover have "(of_char (sql_lower_char c) :: nat) = of_char CHR ''_'' \<longleftrightarrow> sql_lower_char c = CHR ''_''"
    by (rule of_char_eq_iff)
  moreover have "(of_char c :: nat) = of_char CHR ''_'' \<longleftrightarrow> c = CHR ''_''"
    by (rule of_char_eq_iff)
  ultimately show "sql_lower_char c = CHR ''_'' \<longleftrightarrow> c = CHR ''_''" by simp
qed

lemma sql_like_percent: "sql_like ''%'' s"
  by (induction s) simp_all

lemma sql_like_prefix:
  assumes "CHR ''%'' \<notin> set p" "CHR ''_'' \<notin> set p"
  shows "sql_like (p @ ''%'') s \<longleftrightarrow> startswith (sql_lower s) (sql_lower p)"
  using assms
proof (induction p arbitrary: s)
  case Nil
  then show ?case by (simp add: sql_like_percent startswith_def sql_lower_def)
next
  case (Cons c p)
  show ?case
  proof (cases s)
    case Nil
    then show ?thesis using Cons.prems by (auto simp: startswith_def sql_lower_def)
  next
    case (Cons x s')
    have "sql_like (p @ ''%'') s' \<longleftrightarrow> startswith (sql_lower s') (sql_lower p)"
      using Cons.prems by (intro Cons.IH) auto
    then show ?thesis using Cons Cons.prems
      by (auto simp: startswith_def sql_lower_def)
  qed
qed

lemma sql_like_leading_percent:
  "sql_like (CHR ''%'' # r) s \<longleftrightarrow> (\<exists>k\<le>length s. sql_like r (drop k s))"
proof (induction s)
  case Nil
  then show ?case by simp
next
  case (Cons x s)
  have "(\<exists>k\<le>length (x # s). sql_like r (drop k (x # s))) \<longleftrightarrow>
        sql_like r (x # s) \<or> (\<exists>k\<le>length s. sql_like r (drop k s))"
  proof
    assume "\<exists>k\<le>length (x # s). sql_like r (drop k (x # s))"
    then obtain k where k: "k \<le> length (x # s)" "sql_like r (drop k (x # s))" by blast
    show "sql_like r (x # s) \<or> (\<exists>k\<le>length s. sql_like r (drop k s))"
    proof (cases k)
      case 0 then show ?thesis using k by simp
    next
      case (Suc j) then show ?thesis using k by auto
    qed
  next
    assume "sql_like r (x # s) \<or> (\<exists>k\<le>length s. sql_like r (drop k s))"
    then show "\<exists>k\<le>length (x # s). sql_like r (drop k (x # s))"
    proof
      assume "sql_like r (x # s)"
      then have "0 \<le> length (x # s) \<and> sql_like r (drop 0 (x # s))" by simp
      then show ?thesis by blast
    next
      assume "\<exists>k\<le>length s. sql_like r (drop k s)"
      then obtain k where "k \<le> length s" "sql_like r (drop k s)" by blast
      then have "Suc k \<le> length (x # s) \<and> sql_like r (drop (Suc k) (x # s))" by simp
      then show ?thesis by blast
    qed
  qed
  then show ?case using Cons.IH by simp
qed

lemma is_substring_iff:
  "is_substring p s \<longleftrightarrow> (\<exists>k\<le>length s. startswith (drop k s) p)"
proof (induction s)
  case Nil
  then show ?case by (auto simp: startswith_def)
next
  case (Cons x s)
  have "(\<exists>k\<le>length (x # s). startswith (drop k (x # s)) p) \<longleftrightarrow>
        startswith (x # s) p \<or> (\<exists>k\<le>length s. startswith (drop k s) p)"
  proof
    assume "\<exists>k\<le>length (x # s). startswith (drop k (x # s)) p"
    then obtain k where k: "k \<le> length (x # s)" "startswith (drop k (x # s)) p" by blast
    show "startswith (x # s) p \<or> (\<exists>k\<le>length s. startswith (drop k s) p)"
    proof (cases k)
      case 0 then show ?thesis using k by simp
    next
      case (Suc j) then show ?thesis using k by auto
    qed
  next
    assume "startswith (x # s) p \<or> (\<exists>k\<le>length s. startswith (drop k s) p)"
    then show "\<exists>k\<le>length (x # s). startswith (drop k (x # s)) p"
    proof
      assume "startswith (x # s) p"
      then have "0 \<le> length (x # s) \<and> startswith (drop 0 (x # s)) p" by simp
      then show ?thesis by blast
    next
      assume "\<exists>k\<le>length s. startswith (drop k s) p"
      then obtain k where "k \<le> length s" "startswith (drop k s) p" by blast
      then have "Suc k \<le> length (x # s) \<and> startswith (drop (Suc k) (x # s)) p" by simp
      then show ?thesis by blast
    qed
  qed
  then show ?case using Cons.IH by simp
qed

lemma sql_lower_char_nul: "sql_lower_char c = CHR 0x00 \<longleftrightarrow> c = CHR 0x00"
proof -
  have "(of_char (sql_lower_char c) :: nat) = 0 \<longleftrightarrow> (of_char c :: nat) = 0"
    by (simp add: of_char_sql_lower_char)
  moreover have "(of_char (sql_lower_char c) :: nat) = of_char (CHR 0x00) \<longleftrightarrow>
      sql_lower_char c = CHR 0x00"
    by (rule of_char_eq_iff)
  moreover have "(of_char c :: nat) = of_char (CHR 0x00) \<longleftrightarrow> c = CHR 0x00"
    by (rule of_char_eq_iff)
  ultimately show ?thesis by simp
qed

lemma c_string_without_nul: "CHR 0x00 \<notin> set s \<Longrightarrow> c_string (sql_lower s) = sql_lower s"
  unfolding c_string_def
  by (rule takeWhile_eq_all_conv [THEN iffD2]) (auto simp: sql_lower_def sql_lower_char_nul)

lemma utf8_length_sql_lower: "utf8_length (sql_lower s) = utf8_length s"
proof -
  have "length (encode_char (sql_lower_char c)) = length (encode_char c)" for c
    by (simp add: encode_char_def Let_def of_char_sql_lower_char)
  then have "length (encode (sql_lower s)) = length (encode s)"
    by (induction s) (simp_all add: encode_def sql_lower_def)
  then show ?thesis by (simp add: utf8_length_def)
qed

lemma sql_like_is_substring:
  assumes "CHR ''%'' \<notin> set q" "CHR ''_'' \<notin> set q"
  shows "sql_like (sql_lower (''%'' @ q @ ''%'')) (sql_lower t) \<longleftrightarrow>
         is_substring (sql_lower q) (sql_lower t)"
proof -
  have pc: "sql_lower_char CHR ''%'' = CHR ''%''" by (simp add: sql_lower_char_def less_eq_char_def)
  have nw1: "CHR ''%'' \<notin> set (sql_lower q)"
  proof
    assume "CHR ''%'' \<in> set (sql_lower q)"
    then obtain x where "x \<in> set q" "sql_lower_char x = CHR ''%''"
      by (auto simp: sql_lower_def)
    then show False using assms(1) by (simp add: sql_lower_char_wildcard)
  qed
  have nw2: "CHR ''_'' \<notin> set (sql_lower q)"
  proof
    assume "CHR ''_'' \<in> set (sql_lower q)"
    then obtain x where "x \<in> set q" "sql_lower_char x = CHR ''_''"
      by (auto simp: sql_lower_def)
    then show False using assms(2) by (simp add: sql_lower_char_wildcard)
  qed
  note nw = nw1 nw2
  have low: "sql_lower (sql_lower s) = sql_lower s" for s
    by (simp add: sql_lower_def comp_def)
  have step: "sql_like (sql_lower q @ ''%'') (drop k (sql_lower t)) \<longleftrightarrow>
              startswith (drop k (sql_lower t)) (sql_lower q)" for k
  proof -
    have "sql_lower (drop k (sql_lower t)) = drop k (sql_lower t)"
      by (simp add: sql_lower_def drop_map comp_def)
    then show ?thesis
      using sql_like_prefix [OF nw, of "drop k (sql_lower t)"] by (simp add: low)
  qed
  have "sql_like (sql_lower (''%'' @ q @ ''%'')) (sql_lower t) \<longleftrightarrow>
        sql_like (CHR ''%'' # (sql_lower q @ ''%'')) (sql_lower t)"
    by (simp add: sql_lower_def pc)
  also have "\<dots> \<longleftrightarrow> (\<exists>k\<le>length (sql_lower t). sql_like (sql_lower q @ ''%'') (drop k (sql_lower t)))"
    by (rule sql_like_leading_percent)
  also have "\<dots> \<longleftrightarrow> (\<exists>k\<le>length (sql_lower t). startswith (drop k (sql_lower t)) (sql_lower q))"
    by (simp add: step)
  also have "\<dots> \<longleftrightarrow> is_substring (sql_lower q) (sql_lower t)"
    by (simp add: is_substring_iff)
  finally show ?thesis .
qed

text \<open>
  For a search term without \<open>%\<close>, \<open>_\<close> and NUL, whose pattern is within the length limit,
  and a text without NUL, the source's search is the literal substring test of the
  specification.
\<close>

lemma like_is_substring_without_wildcards:
  assumes "CHR ''%'' \<notin> set q" "CHR ''_'' \<notin> set q" "CHR 0x00 \<notin> set q"
    and "utf8_length (''%'' @ q @ ''%'') \<le> 50000"
    and "\<forall>t. text r = Some t \<longrightarrow> CHR 0x00 \<notin> set t"
  shows "holds (Lower_text_like (''%'' @ q @ ''%'')) r = Inr (literal_substring_match q (text r))"
proof (cases "text r")
  case None
  then show ?thesis
    using assms(4) by (simp add: like_function_def utf8_length_sql_lower literal_substring_match_def)
next
  case (Some t)
  have p: "c_string (sql_lower (CHR ''%'' # q @ ''%'')) = sql_lower (CHR ''%'' # q @ ''%'')"
    using assms(3) by (intro c_string_without_nul) simp
  have t: "c_string (sql_lower t) = sql_lower t"
    using assms(5) Some by (intro c_string_without_nul) simp
  show ?thesis
    using assms(4) Some sql_like_is_substring [OF assms(1,2), of t]
    by (simp add: like_function_def utf8_length_sql_lower literal_substring_match_def p t)
qed

subsection \<open>Listing: filters, total and order\<close>






text \<open>
  Claim C10. Calling the list operation with \<open>from_msisdn\<close>, \<open>since\<close> or \<open>q\<close> equal to
  the empty string gives exactly the result of the call with that filter absent, page,
  total and error alike; with all three empty the result is that of the unfiltered call.
\<close>

theorem empty_filter_is_absent:
  "get_messages db lim off (Some []) since q = get_messages db lim off None since q \<and>
   get_messages db lim off frm (Some []) q = get_messages db lim off frm None q \<and>
   get_messages db lim off frm since (Some []) = get_messages db lim off frm since None \<and>
   get_messages db lim off (Some []) (Some []) (Some []) = get_messages db lim off None None None"
  by (simp add: get_messages_def conditions_def)


lemma set_limit_offset_subset: "set (limit_offset lim off xs) \<subseteq> set xs"
  by (auto simp: limit_offset_def dest: in_set_takeD in_set_dropD)

lemma limit_offset_all:
  "(lim < 0 \<or> length xs \<le> nat lim) \<Longrightarrow> off \<le> 0 \<Longrightarrow> limit_offset lim off xs = xs"
  by (auto simp: limit_offset_def)

lemma set_order_by [simp]: "set (order_by_ts_message_id rs) = set rs"
  by (simp add: order_by_ts_message_id_def)

lemma length_order_by [simp]: "length (order_by_ts_message_id rs) = length rs"
  by (simp add: order_by_ts_message_id_def)




text \<open>
  Where the search term has no \<open>%\<close>, \<open>_\<close> or NUL, its pattern is within the length limit
  and the text of the row has no NUL, the WHERE clause is true of a row exactly when all
  supplied filters hold of it as the specification words them.
\<close>

lemma where_clause_is_filters_hold:
  assumes "\<forall>x. q = Some x \<longrightarrow>
      CHR ''%'' \<notin> set x \<and> CHR ''_'' \<notin> set x \<and> CHR 0x00 \<notin> set x \<and>
      utf8_length (''%'' @ x @ ''%'') \<le> 50000"
    and "\<forall>t. text r = Some t \<longrightarrow> CHR 0x00 \<notin> set t"
  shows "where_clause (conditions frm since q) r = Inr (filters_hold frm since q r)"
proof (cases q)
  case None
  then show ?thesis
    by (cases frm; cases since) (auto simp: conditions_def filters_hold_def)
next
  case (Some x)
  have like: "holds (Lower_text_like (''%'' @ x @ ''%'')) r = Inr (literal_substring_match x (text r))"
    using assms Some by (intro like_is_substring_without_wildcards) auto
  show ?thesis
    using Some like
    by (cases frm; cases since) (auto simp: conditions_def filters_hold_def simp del: holds.simps(3))
qed

text \<open>
  Claim C9, at the three filters of the tests' sender, a lower bound on \<open>ts\<close> and the
  search term consisting of one underscore: the text of the second seeded message does
  not contain an underscore, so not all three predicates hold of it, yet the list
  operation counts and returns it.
\<close>

theorem wildcard_term_breaks_conjunction:
  "get_messages seed_messages 50 0 (Some ''+919876543210'') (Some ''2025-01-15T10:01:00Z'')
     (Some ''_'') =
     Inr ([\<lparr>msg_message_id = ''msg_2'', msg_from = ''+919876543210'',
            msg_to = ''+919876543212'', msg_ts = ''2025-01-15T10:01:00Z'',
            msg_text = Some ''World''\<rparr>], 1) \<and>
   list_all (\<lambda>r. \<not> filters_hold (Some ''+919876543210'') (Some ''2025-01-15T10:01:00Z'')
                       (Some ''_'') r) seed_messages"
  by code_simp

text \<open>
  Claim C6, at the search term consisting of one underscore: no seeded text contains an
  underscore, yet the list operation returns all three seeded messages.
\<close>

theorem like_wildcards_match_without_substring:
  "get_messages seed_messages 50 0 None None (Some ''_'') =
     Inr (map message_of_row seed_messages, 3) \<and>
   list_all (\<lambda>r. \<not> literal_substring_match ''_'' (text r)) seed_messages"
  by code_simp

subsection \<open>The listing route\<close>


subsection \<open>Statistics\<close>

lemma set_group_by_from:
  "set (group_by_from db) = (\<lambda>s. (s, count_from db s)) ` from_msisdn ` set db"
  by (simp add: group_by_from_def)

lemma distinct_group_by_from: "distinct (map fst (group_by_from db))"
  by (simp add: group_by_from_def comp_def)

lemma length_group_by_from: "length (group_by_from db) = card (from_msisdn ` set db)"
  by (simp add: group_by_from_def length_remdups_card_conv)

lemma set_order_by_count [simp]: "set (order_by_count_desc gs) = set gs"
  by (simp add: order_by_count_desc_def)

lemma length_order_by_count [simp]: "length (order_by_count_desc gs) = length gs"
  by (simp add: order_by_count_desc_def)

lemma distinct_order_by_count:
  "distinct (map fst gs) \<Longrightarrow> distinct (map fst (order_by_count_desc gs))"
  by (simp add: order_by_count_desc_def distinct_map)

lemma sorted_order_by_count:
  "sorted_wrt (\<lambda>a b. snd b \<le> snd a) (order_by_count_desc gs)"
proof -
  have "sorted (map (\<lambda>g. - int (snd g)) (order_by_count_desc gs))"
    by (simp add: order_by_count_desc_def)
  then show ?thesis by (simp add: sorted_map)
qed

lemma top_of_sorted:
  assumes "sorted_wrt R xs" and "x \<in> set (take k xs)" and "y \<in> set xs" and "y \<notin> set (take k xs)"
  shows "R x y"
proof -
  have "y \<in> set (drop k xs)"
    using assms(3,4) by (metis Un_iff append_take_drop_id set_append)
  moreover have "sorted_wrt R (take k xs @ drop k xs)" using assms(1) by simp
  ultimately show ?thesis using assms(2) unfolding sorted_wrt_append by blast
qed

lemma stats_empty:
  "get_stats [] = \<lparr>total_messages = 0, senders_count = 0, messages_per_sender = [],
                    first_message_ts = None, last_message_ts = None\<rparr>"
  by (simp add: get_stats_def)

lemma stats_nonempty:
  assumes "db \<noteq> []"
  shows "total_messages (get_stats db) = length db"
    and "senders_count (get_stats db) = card (from_msisdn ` set db)"
    and "messages_per_sender (get_stats db) = take 10 (order_by_count_desc (group_by_from db))"
  using assms by (simp_all add: get_stats_def length_remdups_card_conv)

lemma top_senders_props:
  fixes db :: table
  defines "mps \<equiv> take 10 (order_by_count_desc (group_by_from db))"
  shows "sorted_wrt (\<lambda>a b. snd b \<le> snd a) mps"
    and "length mps = min 10 (card (from_msisdn ` set db))"
    and "distinct (map fst mps)"
    and "\<forall>g \<in> set mps. fst g \<in> from_msisdn ` set db \<and> snd g = count_from db (fst g)"
    and "\<forall>s \<in> from_msisdn ` set db. s \<notin> fst ` set mps \<longrightarrow>
           (\<forall>g \<in> set mps. count_from db s \<le> snd g)"
proof -
  let ?L = "order_by_count_desc (group_by_from db)"
  show "sorted_wrt (\<lambda>a b. snd b \<le> snd a) mps"
    unfolding mps_def by (rule sorted_wrt_take) (rule sorted_order_by_count)
  show "length mps = min 10 (card (from_msisdn ` set db))"
    unfolding mps_def by (simp add: length_group_by_from min.commute)
  show "distinct (map fst mps)"
    unfolding mps_def take_map [symmetric]
    by (rule distinct_take) (simp add: distinct_order_by_count distinct_group_by_from)
  show "\<forall>g \<in> set mps. fst g \<in> from_msisdn ` set db \<and> snd g = count_from db (fst g)"
  proof
    fix g assume "g \<in> set mps"
    then have "g \<in> set (group_by_from db)"
      unfolding mps_def by (auto dest: in_set_takeD)
    then show "fst g \<in> from_msisdn ` set db \<and> snd g = count_from db (fst g)"
      by (auto simp: set_group_by_from)
  qed
  show "\<forall>s \<in> from_msisdn ` set db. s \<notin> fst ` set mps \<longrightarrow>
           (\<forall>g \<in> set mps. count_from db s \<le> snd g)"
  proof (intro ballI impI)
    fix s g
    assume s: "s \<in> from_msisdn ` set db" and out: "s \<notin> fst ` set mps" and g: "g \<in> set mps"
    have in_L: "(s, count_from db s) \<in> set ?L"
      using s by (simp add: set_group_by_from image_iff)
    have not_top: "(s, count_from db s) \<notin> set (take 10 ?L)"
      using out unfolding mps_def by force
    have "snd (s, count_from db s) \<le> snd g"
      using top_of_sorted [OF sorted_order_by_count _ in_L not_top] g unfolding mps_def by blast
    then show "count_from db s \<le> snd g" by simp
  qed
qed

lemma senders_of_example:
  assumes "length db = 3" "count_from db A = 2" "count_from db B = 1"
  shows "from_msisdn ` set db = {A, B}" and "A \<noteq> B"
proof -
  from assms(1) obtain r1 r2 r3 where db: "db = [r1, r2, r3]"
    by (auto simp: length_Suc_conv numeral_3_eq_3)
  show "A \<noteq> B" using assms(2,3) by auto
  show "from_msisdn ` set db = {A, B}"
    using assms(2,3) unfolding db count_from_def
    by (auto split: if_splits)
qed

lemma group_of_example:
  assumes "length db = 3" "count_from db A = 2" "count_from db B = 1"
  shows "order_by_count_desc (group_by_from db) = [(A, 2), (B, 1)]"
proof -
  have set: "set (map from_msisdn db) = {A, B}" and ne: "A \<noteq> B"
    using senders_of_example [OF assms] by simp_all
  have "sort (remdups (map from_msisdn db)) = sorted_list_of_set {A, B}"
    using set by (simp add: sorted_list_of_set_sort_remdups [symmetric])
  also have "\<dots> = (if A \<le> B then [A, B] else [B, A])"
    using ne by (auto simp: insort_is_Cons)
  finally show ?thesis
    using assms(2,3) by (auto simp: group_by_from_def order_by_count_desc_def)
qed

text \<open>
  Claim C7. On an empty table the statistics are all zero, empty and null. On a
  non-empty table \<open>total_messages\<close> is the number of rows, \<open>senders_count\<close> the number
  of distinct senders, and \<open>messages_per_sender\<close> lists at most ten distinct senders with
  their row counts, in descending order of count, no omitted sender having more rows
  than a listed one. With three rows, two from A and one from B, the result is
  \<open>senders_count = 2\<close>, \<open>total_messages = 3\<close> and the list A with 2, then B with 1.
\<close>

theorem stats_aggregation:
  "get_stats [] = \<lparr>total_messages = 0, senders_count = 0, messages_per_sender = [],
                    first_message_ts = None, last_message_ts = None\<rparr> \<and>
   (db \<noteq> [] \<longrightarrow>
      total_messages (get_stats db) = length db \<and>
      senders_count (get_stats db) = card (from_msisdn ` set db) \<and>
      sorted_wrt (\<lambda>a b. snd b \<le> snd a) (messages_per_sender (get_stats db)) \<and>
      length (messages_per_sender (get_stats db)) = min 10 (card (from_msisdn ` set db)) \<and>
      distinct (map fst (messages_per_sender (get_stats db))) \<and>
      (\<forall>g \<in> set (messages_per_sender (get_stats db)).
         fst g \<in> from_msisdn ` set db \<and> snd g = count_from db (fst g)) \<and>
      (\<forall>s \<in> from_msisdn ` set db. s \<notin> fst ` set (messages_per_sender (get_stats db)) \<longrightarrow>
         (\<forall>g \<in> set (messages_per_sender (get_stats db)). count_from db s \<le> snd g))) \<and>
   (length db = 3 \<and> count_from db A = 2 \<and> count_from db B = 1 \<longrightarrow>
      senders_count (get_stats db) = 2 \<and> total_messages (get_stats db) = 3 \<and>
      messages_per_sender (get_stats db) = [(A, 2), (B, 1)])"
proof (intro conjI impI)
  show "get_stats [] = \<lparr>total_messages = 0, senders_count = 0, messages_per_sender = [],
                    first_message_ts = None, last_message_ts = None\<rparr>"
    by (rule stats_empty)
next
  assume ne: "db \<noteq> []"
  note s = stats_nonempty [OF ne]
  show "total_messages (get_stats db) = length db" by (rule s)
  show "senders_count (get_stats db) = card (from_msisdn ` set db)" by (rule s)
  show "sorted_wrt (\<lambda>a b. snd b \<le> snd a) (messages_per_sender (get_stats db))"
    unfolding s(3) by (rule top_senders_props)
  show "length (messages_per_sender (get_stats db)) = min 10 (card (from_msisdn ` set db))"
    unfolding s(3) by (rule top_senders_props)
  show "distinct (map fst (messages_per_sender (get_stats db)))"
    unfolding s(3) by (rule top_senders_props)
  show "\<forall>g \<in> set (messages_per_sender (get_stats db)).
         fst g \<in> from_msisdn ` set db \<and> snd g = count_from db (fst g)"
    unfolding s(3) by (rule top_senders_props)
  show "\<forall>s \<in> from_msisdn ` set db. s \<notin> fst ` set (messages_per_sender (get_stats db)) \<longrightarrow>
         (\<forall>g \<in> set (messages_per_sender (get_stats db)). count_from db s \<le> snd g)"
    unfolding s(3) by (rule top_senders_props)
next
  assume ex: "length db = 3 \<and> count_from db A = 2 \<and> count_from db B = 1"
  then have l: "length db = 3" and a: "count_from db A = 2" and b: "count_from db B = 1"
    by simp_all
  have ne: "db \<noteq> []" using l by auto
  note s = stats_nonempty [OF ne]
  have senders: "from_msisdn ` set db = {A, B}" and ab: "A \<noteq> B"
    using senders_of_example [OF l a b] by simp_all
  show "senders_count (get_stats db) = 2" unfolding s(2) senders using ab by simp
  show "total_messages (get_stats db) = 3" unfolding s(1) by (rule l)
  show "messages_per_sender (get_stats db) = [(A, 2), (B, 1)]"
    unfolding s(3) group_of_example [OF l a b] by simp
qed

subsection \<open>Ingestion\<close>

lemma hex_digit_ascii: "n < 16 \<Longrightarrow> (of_char (hex_digit n) :: nat) < 128"
  by (simp add: hex_digit_def)

lemma is_ascii_hexdigest: "is_ascii (hexdigest d)"
proof -
  have "(of_char b :: nat) div 16 < 16" for b :: char
    by (rule less_mult_imp_div_less) simp
  then show ?thesis
    by (induction d) (simp_all add: is_ascii_def hexdigest_def hex_byte_def hex_digit_ascii)
qed

lemma length_hexdigest: "length (hexdigest d) = 2 * length d"
  by (induction d) (simp_all add: hexdigest_def hex_byte_def)

lemma verify_own_signature:
  "verify_signature h secret body (hexdigest (h (encode secret) body)) = Inr True"
  by (simp add: verify_signature_def compare_digest_def is_ascii_hexdigest)

lemma insert_message_new:
  "mid \<notin> message_id ` set db \<Longrightarrow>
   insert_message db now mid frm to tsv txt =
     (db @ [\<lparr>message_id = mid, from_msisdn = frm, to_msisdn = to, ts = tsv,
             text = txt, created_at = now @ ''Z''\<rparr>], True)"
  by (simp add: insert_message_def)

lemma insert_message_duplicate:
  "mid \<in> message_id ` set db \<Longrightarrow> insert_message db now mid frm to tsv txt = (db, False)"
  by (simp add: insert_message_def)

lemma insert_message_present:
  "insert_message db now mid frm to tsv txt = (db', b) \<Longrightarrow> mid \<in> message_id ` set db'"
  by (auto simp: insert_message_def split: if_splits)

lemma insert_message_primary_key:
  "primary_key db \<Longrightarrow> insert_message db now mid frm to tsv txt = (db', b) \<Longrightarrow> primary_key db'"
  by (auto simp: insert_message_def primary_key_def split: if_splits)

lemma primary_key_one_row:
  "primary_key db \<Longrightarrow> mid \<in> message_id ` set db \<Longrightarrow>
   length (filter (\<lambda>r. message_id r = mid) db) = 1"
proof (induction db)
  case Nil
  then show ?case by simp
next
  case (Cons r db)
  show ?case
  proof (cases "message_id r = mid")
    case True
    then have "mid \<notin> message_id ` set db" using Cons.prems(1) by (auto simp: primary_key_def)
    then have "filter (\<lambda>r. message_id r = mid) db = []" by (auto simp: filter_empty_conv)
    then show ?thesis using True by simp
  next
    case False
    then show ?thesis using Cons by (auto simp: primary_key_def)
  qed
qed

lemma webhook_valid:
  assumes "webhook_secret env = Some secret"
    and "length (hmac_sha256 env (encode secret) body) = 32"
    and "json_loads env body = Some (PDict kwargs)"
    and "WebhookMessage_init (fromisoformat env) kwargs = Inr m"
  shows "webhook env db now (Some (hexdigest (hmac_sha256 env (encode secret) body))) body =
         ingest db now m"
proof -
  have "hexdigest (hmac_sha256 env (encode secret) body) \<noteq> []"
    using assms(2) length_hexdigest [of "hmac_sha256 env (encode secret) body"] by auto
  then show ?thesis
    using assms(1,3,4) by (simp add: webhook_def verify_own_signature parse_and_ingest_def)
qed

text \<open>
  A message that \<open>WebhookMessage\<close> accepts is ingested once: sent twice with a correct
  signature it is acknowledged both times, the second request is recorded as
  \<open>duplicate\<close> and leaves the table as the first request left it, with exactly one row
  for the message's id, and the second \<open>insert_message\<close> returns \<open>False\<close> without
  changing the table.
\<close>

lemma accepted_message_is_ingested_once:
  assumes pk: "primary_key db"
    and secret: "webhook_secret env = Some secret"
    and digest: "length (hmac_sha256 env (encode secret) body) = 32"
    and sig: "x_signature = Some (hexdigest (hmac_sha256 env (encode secret) body))"
    and parse: "json_loads env body = Some (PDict kwargs)"
    and valid: "WebhookMessage_init (fromisoformat env) kwargs = Inr m"
    and first: "webhook env db now x_signature body = (answer, labels, db')"
    and second: "webhook env db' now' x_signature body = (answer', labels', db'')"
  shows "answer = WebhookResponse ''ok'' \<and> answer' = WebhookResponse ''ok'' \<and>
         labels' = [''duplicate''] \<and>
         length (filter (\<lambda>r. message_id r = wm_message_id m) db'') = 1 \<and>
         db'' = db' \<and>
         insert_message db' now' (wm_message_id m) (wm_from_msisdn m) (wm_to_msisdn m)
           (wm_ts m) (wm_text m) = (db', False)"
proof -
  obtain b where ins: "insert_message db now (wm_message_id m) (wm_from_msisdn m)
      (wm_to_msisdn m) (wm_ts m) (wm_text m) = (db', b)" and a: "answer = WebhookResponse ''ok''"
    using first unfolding sig webhook_valid [OF secret digest parse valid]
    by (auto simp: ingest_def split: prod.splits)
  have present: "wm_message_id m \<in> message_id ` set db'"
    by (rule insert_message_present [OF ins])
  have pk': "primary_key db'" by (rule insert_message_primary_key [OF pk ins])
  have dup: "insert_message db' now' (wm_message_id m) (wm_from_msisdn m) (wm_to_msisdn m)
           (wm_ts m) (wm_text m) = (db', False)"
    by (rule insert_message_duplicate [OF present])
  have "(answer', labels', db'') = (WebhookResponse ''ok'', [''duplicate''], db')"
    using second unfolding sig webhook_valid [OF secret digest parse valid]
    by (simp add: ingest_def dup)
  then show ?thesis
    using a dup primary_key_one_row [OF pk' present] by simp
qed

subsection \<open>The signature gate\<close>

lemma parse_and_ingest_not_401:
  "fst (parse_and_ingest env db now body) \<noteq> HTTPException 401"
  by (auto simp: parse_and_ingest_def ingest_def split: option.splits pyval.splits sum.splits prod.splits)

text \<open>
  For a signature header of ASCII characters the gate is exact: the request is answered
  401 with the label \<open>invalid_signature\<close> and the table unchanged precisely when the
  header is missing or differs from the lowercase hexadecimal digest.
\<close>

lemma signature_gate_for_ascii:
  assumes "webhook_secret env = Some secret"
    and "length (hmac_sha256 env (encode secret) body) = 32"
    and "case x_signature of None \<Rightarrow> True | Some s \<Rightarrow> is_ascii s"
  shows "webhook env db now x_signature body = (HTTPException 401, [''invalid_signature''], db) \<longleftrightarrow>
         x_signature \<noteq> Some (hexdigest (hmac_sha256 env (encode secret) body))"
proof (cases x_signature)
  case None
  then show ?thesis by (simp add: webhook_def)
next
  case (Some s)
  let ?e = "hexdigest (hmac_sha256 env (encode secret) body)"
  have ne: "?e \<noteq> []"
    using assms(2) length_hexdigest [of "hmac_sha256 env (encode secret) body"] by auto
  have asc: "is_ascii s" using assms(3) Some by simp
  show ?thesis
  proof (cases "s = ?e")
    case True
    have "webhook env db now x_signature body = parse_and_ingest env db now body"
      using Some True ne assms(1) by (simp add: webhook_def verify_own_signature)
    then show ?thesis
      using parse_and_ingest_not_401 [of env db now body] Some True by auto
  next
    case False
    then have "verify_signature (hmac_sha256 env) secret body s = Inr False"
      using asc by (auto simp: verify_signature_def compare_digest_def is_ascii_hexdigest)
    then show ?thesis using Some False assms(1) by (simp add: webhook_def)
  qed
qed

text \<open>
  Claim C2, at a signature that is not equal to the expected digest: the header value
  consisting of the single byte 0xE9. The comparison raises \<open>TypeError\<close>, which the route
  does not catch: the answer is not the 401 rejection and no \<open>invalid_signature\<close> label
  is recorded.
\<close>

theorem non_ascii_signature_raises:
  "webhook \<lparr>webhook_secret = Some secret, hmac_sha256 = h, json_loads = j, fromisoformat = f\<rparr>
     db now (Some [CHR 0xE9]) body = (Uncaught TypeError, [], db)"
  by (simp add: webhook_def verify_signature_def compare_digest_def is_ascii_def)

subsection \<open>The validation gate\<close>

text \<open>
  A payload with an empty \<open>message_id\<close>, a sender or receiver that \<open>validate_msisdn\<close>
  refuses, a \<open>ts\<close> that does not end in Z or does not parse, or a text longer than 4096
  characters is answered 422 with the label \<open>validation_error\<close> and the table
  unchanged.
\<close>

lemma validation_gate_on_model_fields:
  assumes "json_loads env body = Some (PDict kwargs)"
    and "map_of kwargs ''message_id'' = Some (PStr []) \<or>
         (\<exists>v. map_of kwargs ''from_msisdn'' = Some (PStr v) \<and> \<not> (startswith v ''+'' \<and> isdigit (drop 1 v))) \<or>
         (\<exists>v. map_of kwargs ''to_msisdn'' = Some (PStr v) \<and> \<not> (startswith v ''+'' \<and> isdigit (drop 1 v))) \<or>
         (\<exists>v. map_of kwargs ''ts'' = Some (PStr v) \<and>
              \<not> (endswith v ''Z'' \<and> fromisoformat env (replace_Z v))) \<or>
         (\<exists>v. map_of kwargs ''text'' = Some (PStr v) \<and> 4096 < length v)"
  shows "parse_and_ingest env db now body = (HTTPException 422, [''validation_error''], db)"
proof -
  have "\<exists>es. WebhookMessage_init (fromisoformat env) kwargs = Inl es"
    using assms(2)
    by (auto simp: WebhookMessage_init_def message_id_field_def msisdn_field_def ts_field_def
        text_field_def validate_msisdn_def validate_timestamp_def Let_def
        split: sum.splits option.splits pyval.splits)
  then show ?thesis using assms(1) by (auto simp: parse_and_ingest_def)
qed

text \<open>
  Claim C3, at a sender that is a plus sign followed by the superscript two (U+00B2): it
  is not a plus sign followed by digits 0 to 9, yet \<open>validate_msisdn\<close> accepts it and
  the route stores the message and records \<open>created\<close>.
\<close>

theorem superscript_digits_pass_validation:
  "\<not> plus_digits [CHR ''+'', CHR 0xB2] \<and>
   validate_msisdn [CHR ''+'', CHR 0xB2] = Inr [CHR ''+'', CHR 0xB2] \<and>
   parse_and_ingest
     \<lparr>webhook_secret = secret, hmac_sha256 = h,
      json_loads = (\<lambda>body. Some (PDict
         [(''message_id'', PStr ''msg_123''), (''from_msisdn'', PStr [CHR ''+'', CHR 0xB2]),
          (''to_msisdn'', PStr ''+919876543211''), (''ts'', PStr ''2025-01-15T10:00:00Z'')])),
      fromisoformat = (\<lambda>s. s = ''2025-01-15T10:00:00+00:00'')\<rparr>
     [] ''2025-01-15T10:05:00'' body =
   (WebhookResponse ''ok'', [''created''],
    [\<lparr>message_id = ''msg_123'', from_msisdn = [CHR ''+'', CHR 0xB2],
      to_msisdn = ''+919876543211'', ts = ''2025-01-15T10:00:00Z'', text = None,
      created_at = ''2025-01-15T10:05:00Z''\<rparr>])"
  by code_simp

text \<open>
  \<open>WebhookMessage\<close> declares the fields \<open>from_msisdn\<close> and \<open>to_msisdn\<close> without an
  alias. A payload that names them \<open>from\<close> and \<open>to\<close>, as the payloads of the tests do,
  lacks both required fields and is answered 422.
\<close>

lemma tests_payload_keys_are_ignored:
  assumes "json_loads env body = Some (PDict valid_message)"
  shows "parse_and_ingest env db now body = (HTTPException 422, [''validation_error''], db)"
  using assms
  by (simp add: parse_and_ingest_def WebhookMessage_init_def msisdn_field_def message_id_field_def
      valid_message_def split: sum.splits)

text \<open>
  Claim C1, at the \<open>valid_message\<close> of the tests, sent twice with a correct signature:
  both requests are answered 422 and recorded as \<open>validation_error\<close>, and the table stays
  empty, where the claim and \<open>test_webhook_duplicate_message\<close> expect two acknowledgments
  and one stored row.
\<close>

theorem valid_message_is_refused_twice:
  "webhook test_collaborators [] ''2025-01-15T10:05:00''
     (Some (hexdigest (hmac_sha256 test_collaborators (encode ''test-secret-key'') ''valid_message'')))
     ''valid_message'' =
     (HTTPException 422, [''validation_error''], []) \<and>
   webhook test_collaborators [] ''2025-01-15T10:06:00''
     (Some (hexdigest (hmac_sha256 test_collaborators (encode ''test-secret-key'') ''valid_message'')))
     ''valid_message'' =
     (HTTPException 422, [''validation_error''], [])"
  by code_simp

subsection \<open>The operations on the tests' messages\<close>

lemma sqlite_int_small [simp]: "sqlite_int 50" "sqlite_int 0" "sqlite_int 1" "sqlite_int 2"
  by (simp_all add: sqlite_int_def)



theorem stats_aggregation_witness:
  "seed_messages \<noteq> [] \<and> length seed_messages = 3 \<and>
   count_from seed_messages ''+919876543210'' = 2 \<and>
   count_from seed_messages ''+919876543211'' = 1 \<and>
   senders_count (get_stats seed_messages) = 2 \<and> total_messages (get_stats seed_messages) = 3 \<and>
   messages_per_sender (get_stats seed_messages) = [(''+919876543210'', 2), (''+919876543211'', 1)]"
proof -
  have h: "length seed_messages = 3 \<and> count_from seed_messages ''+919876543210'' = 2 \<and>
     count_from seed_messages ''+919876543211'' = 1"
    by (simp add: seed_messages_def count_from_def)
  have ne: "seed_messages \<noteq> []" by (simp add: seed_messages_def)
  show ?thesis
    using h ne stats_aggregation [of seed_messages "''+919876543210''" "''+919876543211''"]
    by blast
qed




end
